theory Spec2Isabelle
  imports Complex_Main
begin

section \<open>Values shared by both command-line tools\<close>

text \<open>
  A Python \<open>str\<close> holding extracted page text is a sequence of Unicode code points.
  Engine names, image formats and OCR language names are plain ASCII strings. A path is
  either given from outside (\<open>Path(s)\<close>) or built with \<open>parent / name\<close>.
\<close>

type_synonym ustr = "nat list"

datatype path = Path string | Join path string

text \<open>
  The characters that \<open>str.strip()\<close> removes when called without an argument
  (CPython's whitespace table): U+0009..U+000D, U+001C..U+0020, U+0085, U+00A0, U+1680,
  U+2000..U+200A, U+2028, U+2029, U+202F, U+205F, U+3000.
\<close>

definition isspace :: "nat \<Rightarrow> bool" where
  "isspace c =
     ((9 \<le> c \<and> c \<le> 13) \<or> (28 \<le> c \<and> c \<le> 32) \<or> c = 133 \<or> c = 160 \<or> c = 5760
      \<or> (8192 \<le> c \<and> c \<le> 8202) \<or> c = 8232 \<or> c = 8233 \<or> c = 8239 \<or> c = 8287
      \<or> c = 12288)"

definition strip :: "ustr \<Rightarrow> ustr" where
  "strip t = rev (dropWhile isspace (rev (dropWhile isspace t)))"

text \<open>The test \<open>not text or not text.strip()\<close> used by every backend and the orchestrator.\<close>

definition is_blank :: "ustr \<Rightarrow> bool" where
  "is_blank t = (t = [] \<or> strip t = [])"

subsection \<open>Exceptions\<close>

datatype valmsg =
    PageOutOfRange int int    \<comment> \<open>requested page number, total pages: "... {page_number} (... 1-{total_pages})"\<close>
  | PageBelowOne int          \<comment> \<open>requested page number only\<close>
  | InvalidEngine string      \<comment> \<open>the engine name given\<close>
  | EmptyImageList
  | NotAFile path
  | LibraryValueError nat     \<comment> \<open>a ValueError raised inside a library call\<close>

datatype exn =
    ValueError valmsg
  | ImportError string        \<comment> \<open>name of the missing dependency\<close>
  | FileNotFoundError path
  | PermissionError
  | OverflowError             \<comment> \<open>"int too large to convert to float"\<close>
  | KeyboardInterrupt         \<comment> \<open>a BaseException that is not an Exception\<close>
  | LibraryError nat          \<comment> \<open>any other Exception raised inside a library call\<close>

fun is_Exception :: "exn \<Rightarrow> bool" where
  "is_Exception KeyboardInterrupt = False"
| "is_Exception _ = True"

fun isValueError :: "exn \<Rightarrow> bool" where
  "isValueError (ValueError _) = True"
| "isValueError _ = False"

fun isImportError :: "exn \<Rightarrow> bool" where
  "isImportError (ImportError _) = True"
| "isImportError _ = False"

subsection \<open>Library objects\<close>

record pixmap =
  width :: nat
  height :: nat
  samples :: "nat list"

text \<open>
  A PyMuPDF page is what \<open>page.get_pixmap(matrix=fitz.Matrix(a, d))\<close> answers for the two
  scale factors; a document is the list of its pages (\<open>len(doc)\<close>, \<open>doc[i]\<close>). A scale
  factor is a float; the model keeps the exact quotient that the float is the rounding of.
\<close>

type_synonym fitz_page = "rat \<Rightarrow> rat \<Rightarrow> exn + pixmap"
type_synonym fitz_doc = "fitz_page list"

datatype img_src = FromFile path | FromPixmap pixmap

record image =
  img_source :: img_src
  img_mode :: string

text \<open>
  \<open>i / d\<close> for an int \<open>i\<close> and a float \<open>d\<close> first converts \<open>i\<close> to a float. The
  conversion rounds to the nearest double (ties to even) and raises \<open>OverflowError\<close>
  when the result would not be finite: the largest double is \<open>2^1024 - 2^971\<close>, so the
  ints that convert are those of magnitude below \<open>2^1024 - 2^970\<close>.
\<close>

definition float_range :: "int \<Rightarrow> bool" where
  "float_range i = (\<bar>i\<bar> < 2 ^ 1024 - 2 ^ 970)"

definition true_div :: "int \<Rightarrow> rat \<Rightarrow> exn + rat" where
  "true_div i d = (if float_range i then Inr (of_int i / d) else Inl OverflowError)"

subsection \<open>Log records and observable events\<close>

datatype level = INFO | WARNING | ERROR

datatype logmsg =
    MsgTotalPages int
  | MsgParsing path int
  | MsgNoText int
  | MsgExtractFailed exn
  | MsgOcrParsing path int
  | MsgOcrLang string
  | MsgOcrNoText int
  | MsgOcrChars nat
  | MsgOcrFailed exn
  | MsgFallbackTry
  | MsgFallbackOk
  | MsgFallbackEmpty
  | MsgFallbackFailed exn
  | MsgOcrUnavailable "string list"
  | MsgNotPdfSuffix path
  | MsgRange int int
  | MsgPageSaved int path
  | MsgConverted nat
  | MsgConvertFailed exn
  | MsgAssembling nat
  | MsgPdfCreated path
  | MsgAssembleFailed exn
  | MsgStart
  | MsgStartPageBelowOne
  | MsgEndBeforeStart
  | MsgDpiOutOfRange int
  | MsgDone
  | MsgError exn
  | MsgPermission exn
  | MsgInterrupted
  | MsgUnexpected exn

datatype event =
    Log level logmsg
  | CallPdfReader path
  | CallExtractText int
  | CallPdfminer path int
  | CallFitzOpen path
  | DocOpened path                 \<comment> \<open>\<open>fitz.open\<close> returned a document handle\<close>
  | DocClosed path                 \<comment> \<open>\<open>doc.close()\<close>\<close>
  | CallGetPixmap int rat rat
  | CallFrombytes pixmap
  | CallImageToString string
  | CallMkdir path
  | CallPixSave pixmap path
  | CallJpegSave image path
  | CallImageOpen path
  | ImageOpened image              \<comment> \<open>\<open>Image.open\<close> returned an image\<close>
  | CallConvert image
  | CallPdfSave path "image list"
  | ImageClosed image              \<comment> \<open>\<open>img.close()\<close>\<close>

text \<open>
  Everything outside the repository is a field of the world: which optional imports
  succeeded, and what each library call answers (an exception or a value).
\<close>

record world =
  PDFMINER_AVAILABLE :: bool
  PYMUPDF_AVAILABLE :: bool
  PYTESSERACT_AVAILABLE :: bool
  PdfReader :: "path \<Rightarrow> exn + (exn + ustr) list"    \<comment> \<open>the pages, each with what \<open>extract_text()\<close> answers\<close>
  pdfminer_extract_text :: "path \<Rightarrow> int \<Rightarrow> exn + ustr"
  fitz_open :: "path \<Rightarrow> exn + fitz_doc"
  frombytes_error :: "pixmap \<Rightarrow> exn option"          \<comment> \<open>whether \<open>Image.frombytes("RGB", ...)\<close> raises\<close>
  image_to_string :: "image \<Rightarrow> string \<Rightarrow> exn + ustr"
  nfc :: "ustr \<Rightarrow> ustr"                               \<comment> \<open>\<open>unicodedata.normalize('NFC', _)\<close>\<close>
  path_exists :: "path \<Rightarrow> bool"
  path_is_file :: "path \<Rightarrow> bool"
  has_pdf_suffix :: "path \<Rightarrow> bool"                    \<comment> \<open>\<open>pdf_path.suffix.lower() == '.pdf'\<close>\<close>
  stem :: "path \<Rightarrow> string"
  mkdir :: "path \<Rightarrow> exn + unit"
  pix_save :: "pixmap \<Rightarrow> path \<Rightarrow> exn + unit"
  jpeg_save :: "image \<Rightarrow> path \<Rightarrow> exn + unit"
  image_open :: "path \<Rightarrow> exn + string"               \<comment> \<open>\<open>Image.open\<close>: raises, or the mode of the image\<close>
  convert_error :: "image \<Rightarrow> exn option"             \<comment> \<open>whether \<open>img.convert('RGB')\<close> raises\<close>
  pdf_save :: "path \<Rightarrow> image list \<Rightarrow> exn + unit"

subsection \<open>Running code: the events it leaves and how it ends\<close>

type_synonym 'a outcome = "event list \<times> (exn + 'a)"

definition ret :: "'a \<Rightarrow> 'a outcome" where
  "ret v = ([], Inr v)"

definition raise :: "exn \<Rightarrow> 'a outcome" where
  "raise e = ([], Inl e)"

definition emit :: "event \<Rightarrow> unit outcome" where
  "emit ev = ([ev], Inr ())"

definition log :: "level \<Rightarrow> logmsg \<Rightarrow> unit outcome" where
  "log l m = emit (Log l m)"

definition call :: "event \<Rightarrow> exn + 'a \<Rightarrow> 'a outcome" where
  "call ev r = ([ev], r)"

text \<open>A computation of the program's own that leaves no event and may raise.\<close>

definition compute :: "exn + 'a \<Rightarrow> 'a outcome" where
  "compute r = ([], r)"

definition seq :: "'a outcome \<Rightarrow> ('a \<Rightarrow> 'b outcome) \<Rightarrow> 'b outcome" where
  "seq m f =
     (case m of
        (tr, Inl e) \<Rightarrow> (tr, Inl e)
      | (tr, Inr v) \<Rightarrow> (case f v of (tr', r) \<Rightarrow> (tr @ tr', r)))"

text \<open>\<open>try: m except Exception as e: h e\<close>: only instances of \<open>Exception\<close> are caught.\<close>

definition try_except :: "'a outcome \<Rightarrow> (exn \<Rightarrow> 'a outcome) \<Rightarrow> 'a outcome" where
  "try_except m h =
     (case m of
        (tr, Inl e) \<Rightarrow>
          if is_Exception e then (case h e of (tr', r) \<Rightarrow> (tr @ tr', r)) else (tr, Inl e)
      | (tr, Inr v) \<Rightarrow> (tr, Inr v))"

text \<open>\<open>Image.frombytes("RGB", [pix.width, pix.height], pix.samples)\<close>\<close>

definition frombytes :: "world \<Rightarrow> pixmap \<Rightarrow> image outcome" where
  "frombytes W pix =
     call (CallFrombytes pix)
       (case frombytes_error W pix of
          Some e \<Rightarrow> Inl e
        | None \<Rightarrow> Inr \<lparr>img_source = FromPixmap pix, img_mode = ''RGB''\<rparr>)"

section \<open>pdf_page_text.py\<close>

definition extract_page_text_pypdf :: "world \<Rightarrow> path \<Rightarrow> int \<Rightarrow> ustr outcome" where
  "extract_page_text_pypdf W pdf_path page_number =
     try_except
       (seq (call (CallPdfReader pdf_path) (PdfReader W pdf_path)) (\<lambda>pages.
        let total_pages = int (length pages) in
        seq (log INFO (MsgTotalPages total_pages)) (\<lambda>_.
        let page_index = page_number - 1 in
        if page_index < 0 \<or> page_index \<ge> total_pages then
          raise (ValueError (PageOutOfRange page_number total_pages))
        else
          seq (log INFO (MsgParsing pdf_path page_number)) (\<lambda>_.
          seq (call (CallExtractText page_index) (pages ! nat page_index)) (\<lambda>text.
          if is_blank text then
            seq (log WARNING (MsgNoText page_number)) (\<lambda>_. ret [])
          else ret (nfc W text))))))
       (\<lambda>e. if isValueError e then raise e
            else seq (log ERROR (MsgExtractFailed e)) (\<lambda>_. raise e))"

definition extract_page_text_pdfminer :: "world \<Rightarrow> path \<Rightarrow> int \<Rightarrow> ustr outcome" where
  "extract_page_text_pdfminer W pdf_path page_number =
     (if \<not> PDFMINER_AVAILABLE W then raise (ImportError ''pdfminer.six'')
      else
        try_except
          (let page_index = page_number - 1 in
           if page_number < 1 then raise (ValueError (PageBelowOne page_number))
           else
             seq (log INFO (MsgParsing pdf_path page_number)) (\<lambda>_.
             seq (call (CallPdfminer pdf_path page_index)
                       (pdfminer_extract_text W pdf_path page_index)) (\<lambda>text.
             if is_blank text then
               seq (log WARNING (MsgNoText page_number)) (\<lambda>_. ret [])
             else ret (nfc W text))))
          (\<lambda>e. if isValueError e \<or> isImportError e then raise e
               else seq (log ERROR (MsgExtractFailed e)) (\<lambda>_. raise e)))"

definition extract_page_text_ocr :: "world \<Rightarrow> path \<Rightarrow> int \<Rightarrow> string \<Rightarrow> ustr outcome" where
  "extract_page_text_ocr W pdf_path page_number lang =
     (if \<not> PYMUPDF_AVAILABLE W then raise (ImportError ''PyMuPDF'')
      else if \<not> PYTESSERACT_AVAILABLE W then raise (ImportError ''pytesseract'')
      else
        try_except
          (seq (call (CallFitzOpen pdf_path) (fitz_open W pdf_path)) (\<lambda>doc.
           seq (emit (DocOpened pdf_path)) (\<lambda>_.
           let total_pages = int (length doc);
               page_index = page_number - 1 in
           if page_index < 0 \<or> page_index \<ge> total_pages then
             seq (emit (DocClosed pdf_path)) (\<lambda>_.
             raise (ValueError (PageOutOfRange page_number total_pages)))
           else
             seq (log INFO (MsgOcrParsing pdf_path page_number)) (\<lambda>_.
             seq (log INFO (MsgOcrLang lang)) (\<lambda>_.
             let page = doc ! nat page_index;
                 zoom = 150 / 72 in
             seq (call (CallGetPixmap page_index zoom zoom) (page zoom zoom)) (\<lambda>pix.
             seq (frombytes W pix) (\<lambda>img.
             seq (call (CallImageToString lang) (image_to_string W img lang)) (\<lambda>text.
             seq (emit (DocClosed pdf_path)) (\<lambda>_.
             if is_blank text then
               seq (log WARNING (MsgOcrNoText page_number)) (\<lambda>_. ret [])
             else
               (let text' = nfc W text in
                seq (log INFO (MsgOcrChars (length text'))) (\<lambda>_. ret text')))))))))))
          (\<lambda>e. if isValueError e \<or> isImportError e then raise e
               else seq (log ERROR (MsgOcrFailed e)) (\<lambda>_. raise e)))"

definition missing_deps :: "world \<Rightarrow> string list" where
  "missing_deps W =
     (if \<not> PYMUPDF_AVAILABLE W then [''PyMuPDF''] else [])
     @ (if \<not> PYTESSERACT_AVAILABLE W then [''pytesseract''] else [])"

text \<open>The fallback block that follows the first attempt in \<open>extract_page_text\<close>.\<close>

definition ocr_fallback :: "world \<Rightarrow> path \<Rightarrow> int \<Rightarrow> ustr \<Rightarrow> ustr outcome" where
  "ocr_fallback W pdf_path page_number text =
     (if is_blank text then
        (if PYMUPDF_AVAILABLE W \<and> PYTESSERACT_AVAILABLE W then
           seq (log INFO MsgFallbackTry) (\<lambda>_.
           try_except
             (seq (extract_page_text_ocr W pdf_path page_number ''jpn+eng'') (\<lambda>text'.
              if \<not> is_blank text' then seq (log INFO MsgFallbackOk) (\<lambda>_. ret text')
              else seq (log WARNING MsgFallbackEmpty) (\<lambda>_. ret text')))
             (\<lambda>e. seq (log WARNING (MsgFallbackFailed e)) (\<lambda>_. ret [])))
         else
           seq (log WARNING (MsgOcrUnavailable (missing_deps W))) (\<lambda>_. ret text))
      else ret text)"

definition extract_page_text :: "world \<Rightarrow> path \<Rightarrow> int \<Rightarrow> string \<Rightarrow> ustr outcome" where
  "extract_page_text W pdf_path page_number engine =
     (if engine = ''ocr'' then extract_page_text_ocr W pdf_path page_number ''jpn+eng''
      else
        seq (if engine = ''pypdf'' then extract_page_text_pypdf W pdf_path page_number
             else if engine = ''pdfminer'' then extract_page_text_pdfminer W pdf_path page_number
             else raise (ValueError (InvalidEngine engine)))
          (\<lambda>text. ocr_fallback W pdf_path page_number text))"

section \<open>pdf_to_image.py\<close>


text \<open>
  \<open>str.lower()\<close> on an ASCII string, and \<open>str(n)\<close> for an integer as an f-string
  renders it.
\<close>

definition lower_char :: "char \<Rightarrow> char" where
  "lower_char c =
     (case map_of (zip ''ABCDEFGHIJKLMNOPQRSTUVWXYZ'' ''abcdefghijklmnopqrstuvwxyz'') c of
        Some l \<Rightarrow> l
      | None \<Rightarrow> c)"

definition lower :: "string \<Rightarrow> string" where
  "lower s = map lower_char s"

fun decimal :: "nat \<Rightarrow> string" where
  "decimal n =
     (if n < 10 then [''0123456789'' ! n]
      else decimal (n div 10) @ [''0123456789'' ! (n mod 10)])"

declare decimal.simps [simp del]

definition str_int :: "int \<Rightarrow> string" where
  "str_int i = (if i < 0 then CHR ''-'' # decimal (nat (- i)) else decimal (nat i))"

text \<open>The body of the loop \<open>for page_num in range(start_page, end_page)\<close>.\<close>

fun convert_pages ::
  "world \<Rightarrow> fitz_doc \<Rightarrow> path \<Rightarrow> path \<Rightarrow> string \<Rightarrow> int \<Rightarrow> int list \<Rightarrow> path list
     \<Rightarrow> path list outcome" where
  "convert_pages W doc pdf_path output_dir image_format dpi [] image_paths = ret image_paths"
| "convert_pages W doc pdf_path output_dir image_format dpi (page_num # rest) image_paths =
     (let page = doc ! nat page_num in
      seq (compute (true_div dpi 72)) (\<lambda>zoom.
      seq (call (CallGetPixmap page_num zoom zoom) (page zoom zoom)) (\<lambda>pix.
      let base_name = stem W pdf_path;
          output_filename = base_name @ ''-page'' @ str_int (page_num + 1) @ ''.'' @ image_format;
          output_path = Join output_dir output_filename in
      seq (if lower image_format = ''png'' then
             call (CallPixSave pix output_path) (pix_save W pix output_path)
           else if lower image_format \<in> set [''jpg'', ''jpeg''] then
             seq (frombytes W pix) (\<lambda>img.
             call (CallJpegSave img output_path) (jpeg_save W img output_path))
           else ret ()) (\<lambda>_.
      seq (log INFO (MsgPageSaved (page_num + 1) output_path)) (\<lambda>_.
      convert_pages W doc pdf_path output_dir image_format dpi rest
        (image_paths @ [output_path]))))))"

text \<open>The page numbers \<open>range(start_page, end_page)\<close> runs over.\<close>

definition page_span :: "int \<Rightarrow> (int \<times> int) option \<Rightarrow> int \<times> int" where
  "page_span total_pages page_range =
     (case page_range of
        Some (start_page, end_page) \<Rightarrow> (max 0 (start_page - 1), min total_pages end_page)
      | None \<Rightarrow> (0, total_pages))"

definition convert_pdf_to_images ::
  "world \<Rightarrow> path \<Rightarrow> path \<Rightarrow> string \<Rightarrow> int \<Rightarrow> (int \<times> int) option \<Rightarrow> path list outcome" where
  "convert_pdf_to_images W pdf_path output_dir image_format dpi page_range =
     seq (call (CallMkdir output_dir) (mkdir W output_dir)) (\<lambda>_.
     try_except
       (seq (call (CallFitzOpen pdf_path) (fitz_open W pdf_path)) (\<lambda>doc.
        seq (emit (DocOpened pdf_path)) (\<lambda>_.
        let total_pages = int (length doc) in
        seq (log INFO (MsgTotalPages total_pages)) (\<lambda>_.
        let start_page = fst (page_span total_pages page_range);
            end_page = snd (page_span total_pages page_range) in
        seq (log INFO (MsgRange (start_page + 1) end_page)) (\<lambda>_.
        seq (convert_pages W doc pdf_path output_dir image_format dpi
               [start_page..end_page - 1] []) (\<lambda>image_paths.
        seq (emit (DocClosed pdf_path)) (\<lambda>_.
        seq (log INFO (MsgConverted (length image_paths))) (\<lambda>_.
        ret image_paths))))))))
       (\<lambda>e. seq (log ERROR (MsgConvertFailed e)) (\<lambda>_. raise e)))"

text \<open>\<open>img.convert('RGB')\<close> gives a new image object.\<close>

definition convert :: "world \<Rightarrow> image \<Rightarrow> image outcome" where
  "convert W img =
     call (CallConvert img)
       (case convert_error W img of
          Some e \<Rightarrow> Inl e
        | None \<Rightarrow> Inr (img\<lparr>img_mode := ''RGB''\<rparr>))"

definition Image_open :: "world \<Rightarrow> path \<Rightarrow> image outcome" where
  "Image_open W img_path =
     seq (call (CallImageOpen img_path) (image_open W img_path)) (\<lambda>m.
     let img = \<lparr>img_source = FromFile img_path, img_mode = m\<rparr> in
     seq (emit (ImageOpened img)) (\<lambda>_. ret img))"

text \<open>The loop \<open>for img_path in image_paths[1:]\<close>.\<close>

fun open_rest :: "world \<Rightarrow> path list \<Rightarrow> image list \<Rightarrow> image list outcome" where
  "open_rest W [] images = ret images"
| "open_rest W (img_path # rest) images =
     seq (Image_open W img_path) (\<lambda>img.
     seq (if img_mode img \<noteq> ''RGB'' then convert W img else ret img) (\<lambda>img'.
     open_rest W rest (images @ [img'])))"

text \<open>The loop \<open>for img in images: img.close()\<close>.\<close>

fun close_all :: "image list \<Rightarrow> unit outcome" where
  "close_all [] = ret ()"
| "close_all (img # rest) = seq (emit (ImageClosed img)) (\<lambda>_. close_all rest)"

definition images_to_pdf :: "world \<Rightarrow> path list \<Rightarrow> path \<Rightarrow> unit outcome" where
  "images_to_pdf W image_paths output_pdf_path =
     try_except
       (if image_paths = [] then raise (ValueError EmptyImageList)
        else
          seq (log INFO (MsgAssembling (length image_paths))) (\<lambda>_.
          seq (Image_open W (hd image_paths)) (\<lambda>first_image.
          seq (open_rest W (tl image_paths) []) (\<lambda>images.
          seq (if img_mode first_image \<noteq> ''RGB'' then convert W first_image
               else ret first_image) (\<lambda>first_image'.
          seq (call (CallPdfSave output_pdf_path (first_image' # images))
                    (pdf_save W output_pdf_path (first_image' # images))) (\<lambda>_.
          seq (emit (ImageClosed first_image')) (\<lambda>_.
          seq (close_all images) (\<lambda>_.
          log INFO (MsgPdfCreated output_pdf_path)))))))))
       (\<lambda>e. seq (log ERROR (MsgAssembleFailed e)) (\<lambda>_. raise e))"






section \<open>Concrete worlds for evaluating the code\<close>

text \<open>
  A small normaliser standing in for NFC on concrete inputs: it composes
  \<open>e\<close> (U+0065) followed by the combining acute accent (U+0301) into U+00E9.
\<close>

fun compose_acute :: "ustr \<Rightarrow> ustr" where
  "compose_acute (c # d # r) =
     (if c = 101 \<and> d = 769 then 233 # compose_acute r else c # compose_acute (d # r))"
| "compose_acute [c] = [c]"
| "compose_acute [] = []"

definition sample_pdf :: path where
  "sample_pdf = Path ''sample.pdf''"

text \<open>A US-letter page (612 x 792 points): the pixmap has the scaled size, rounded up.\<close>

definition letter_page :: fitz_page where
  "letter_page a d =
     (if a \<le> 0 \<or> d \<le> 0 then Inl (ValueError (LibraryValueError 0))
      else Inr \<lparr>width = nat \<lceil>612 * a\<rceil>, height = nat \<lceil>792 * d\<rceil>, samples = []\<rparr>)"

text \<open>
  \<open>sample.pdf\<close> has three pages: the first reads "Hi", the second holds a space and a
  newline, the third has no text. pdfminer, asked for a page index the document does not
  have, finds no page to read and yields the empty text. OCR reads "e", a combining acute
  accent and a newline from any page. Of the image files, \<open>a.png\<close> is palette-based,
  \<open>b.png\<close> is RGB and no other exists.
\<close>

definition demo_world :: world where
  "demo_world =
     \<lparr>PDFMINER_AVAILABLE = True,
      PYMUPDF_AVAILABLE = True,
      PYTESSERACT_AVAILABLE = True,
      PdfReader = (\<lambda>p. if p = sample_pdf then Inr [Inr [72, 105], Inr [32, 10], Inr []]
                       else Inl (FileNotFoundError p)),
      pdfminer_extract_text = (\<lambda>p i. if p = sample_pdf
                       then Inr (if i = 0 then [72, 105] else if i = 1 then [32, 10] else [])
                       else Inl (FileNotFoundError p)),
      fitz_open = (\<lambda>p. if p = sample_pdf then Inr [letter_page, letter_page, letter_page]
                       else Inl (FileNotFoundError p)),
      frombytes_error = (\<lambda>_. None),
      image_to_string = (\<lambda>_ _. Inr [101, 769, 10]),
      nfc = compose_acute,
      path_exists = (\<lambda>p. p = sample_pdf),
      path_is_file = (\<lambda>p. p = sample_pdf),
      has_pdf_suffix = (\<lambda>p. p = sample_pdf),
      stem = (\<lambda>_. ''sample''),
      mkdir = (\<lambda>_. Inr ()),
      pix_save = (\<lambda>_ _. Inr ()),
      jpeg_save = (\<lambda>_ _. Inr ()),
      image_open = (\<lambda>p. if p = Path ''a.png'' then Inr ''P''
                        else if p = Path ''b.png'' then Inr ''RGB''
                        else Inl (FileNotFoundError p)),
      convert_error = (\<lambda>_. None),
      pdf_save = (\<lambda>_ _. Inr ())\<rparr>"

text \<open>The same world with the Tesseract binary missing: every OCR call raises.\<close>

definition no_tesseract_world :: world where
  "no_tesseract_world = demo_world\<lparr>image_to_string := (\<lambda>_ _. Inl (LibraryError 1))\<rparr>"

section \<open>Predicates used in the statements\<close>

text \<open>
  What a backend can hand back: the empty string, or the normal form of a raw text that
  holds a character other than whitespace.
\<close>

definition produced :: "world \<Rightarrow> ustr \<Rightarrow> bool" where
  "produced W t = (t = [] \<or> (\<exists>raw. \<not> is_blank raw \<and> t = nfc W raw))"

text \<open>The image that a file gives once it is opened and in RGB mode.\<close>

definition rgb_of :: "path \<Rightarrow> image" where
  "rgb_of p = \<lparr>img_source = FromFile p, img_mode = ''RGB''\<rparr>"

text \<open>The file opens as an image, and bringing that image to RGB mode does not raise.\<close>

definition loads_as_rgb :: "world \<Rightarrow> path \<Rightarrow> bool" where
  "loads_as_rgb W p =
     (case image_open W p of
        Inl _ \<Rightarrow> False
      | Inr m \<Rightarrow> m = ''RGB'' \<or> convert_error W \<lparr>img_source = FromFile p, img_mode = m\<rparr> = None)"

text \<open>The PDF files written during a run, each with its pages in order.\<close>

fun pdf_save_of :: "event \<Rightarrow> (path \<times> image list) list" where
  "pdf_save_of (CallPdfSave p imgs) = [(p, imgs)]"
| "pdf_save_of _ = []"

definition pdf_saves :: "event list \<Rightarrow> (path \<times> image list) list" where
  "pdf_saves tr = concat (map pdf_save_of tr)"

text \<open>The rendering calls of a run: page index and the two scale factors.\<close>

fun render_of :: "event \<Rightarrow> (int \<times> rat \<times> rat) list" where
  "render_of (CallGetPixmap n a d) = [(n, a, d)]"
| "render_of _ = []"

definition renders :: "event list \<Rightarrow> (int \<times> rat \<times> rat) list" where
  "renders tr = concat (map render_of tr)"

text \<open>Width and height of each image file a run saves, in the order of saving.\<close>

fun saved_size_of :: "event \<Rightarrow> (nat \<times> nat) list" where
  "saved_size_of (CallPixSave pix _) = [(width pix, height pix)]"
| "saved_size_of (CallJpegSave img _) =
     (case img_source img of
        FromPixmap pix \<Rightarrow> [(width pix, height pix)]
      | FromFile _ \<Rightarrow> [])"
| "saved_size_of _ = []"

definition saved_sizes :: "event list \<Rightarrow> (nat \<times> nat) list" where
  "saved_sizes tr = concat (map saved_size_of tr)"

text \<open>Width and height of the pixmap a page renders to at one scale factor on both axes.\<close>

definition page_size :: "fitz_page \<Rightarrow> rat \<Rightarrow> (nat \<times> nat) list" where
  "page_size page zoom =
     (case page zoom zoom of Inl _ \<Rightarrow> [] | Inr pix \<Rightarrow> [(width pix, height pix)])"

text \<open>The file that holds page \<open>page_num\<close> (counted from 0).\<close>

definition page_file :: "world \<Rightarrow> path \<Rightarrow> path \<Rightarrow> string \<Rightarrow> int \<Rightarrow> path" where
  "page_file W pdf_path output_dir image_format page_num =
     Join output_dir
       (stem W pdf_path @ ''-page'' @ str_int (page_num + 1) @ ''.'' @ image_format)"


text \<open>The out-of-range DPI values a run warns about.\<close>

fun dpi_warning_of :: "event \<Rightarrow> int list" where
  "dpi_warning_of (Log WARNING (MsgDpiOutOfRange d)) = [d]"
| "dpi_warning_of _ = []"

definition dpi_warnings :: "event list \<Rightarrow> int list" where
  "dpi_warnings tr = concat (map dpi_warning_of tr)"

text \<open>
  A stretch of events with no rendering call and no DPI warning, and one whose rendering
  calls all use the scale factor \<open>zoom\<close> on both axes and that has no DPI warning.
\<close>

definition silent :: "event list \<Rightarrow> bool" where
  "silent tr = (renders tr = [] \<and> dpi_warnings tr = [])"

definition zoomed :: "rat \<Rightarrow> event list \<Rightarrow> bool" where
  "zoomed zoom tr =
     (list_all (\<lambda>(n, a, d). a = zoom \<and> d = zoom) (renders tr) \<and> dpi_warnings tr = [])"

text \<open>The same world where file names are built from another stem.\<close>

definition renamed_world :: world where
  "renamed_world = demo_world\<lparr>stem := (\<lambda>_. ''copy'')\<rparr>"

text \<open>
  Following the specification's words (sections 3 and 4.5): a page range is inclusive, in
  1-based page numbers, clamped to \<open>[1, totalPages]\<close>, and is the full document when
  unspecified; pages come in ascending order. These are the page numbers a request asks
  for.
\<close>

definition spec_page_numbers :: "int \<Rightarrow> (int \<times> int) option \<Rightarrow> int list" where
  "spec_page_numbers total_pages page_range =
     (case page_range of
        None \<Rightarrow> [1..total_pages]
      | Some (start_page, end_page) \<Rightarrow> [max 1 start_page..min total_pages end_page])"


section \<open>How outcomes compose\<close>

lemma snd_ret [simp]: "snd (ret v) = Inr v"
  by (simp add: ret_def)

lemma snd_raise [simp]: "snd (raise e) = Inl e"
  by (simp add: raise_def)

lemma snd_emit [simp]: "snd (emit ev) = Inr ()"
  by (simp add: emit_def)

lemma snd_log [simp]: "snd (log l m) = Inr ()"
  by (simp add: log_def)

lemma snd_call [simp]: "snd (call ev r) = r"
  by (simp add: call_def)

lemma snd_seq: "snd (seq m f) = (case snd m of Inl e \<Rightarrow> Inl e | Inr v \<Rightarrow> snd (f v))"
  by (simp add: seq_def split: prod.splits sum.splits)

lemma snd_try_except:
  "snd (try_except m h) =
     (case snd m of Inl e \<Rightarrow> if is_Exception e then snd (h e) else Inl e | Inr v \<Rightarrow> Inr v)"
  by (simp add: try_except_def split: prod.splits sum.splits)

lemma fst_ret [simp]: "fst (ret v) = []"
  by (simp add: ret_def)

lemma fst_raise [simp]: "fst (raise e) = []"
  by (simp add: raise_def)

lemma fst_emit [simp]: "fst (emit ev) = [ev]"
  by (simp add: emit_def)

lemma fst_log [simp]: "fst (log l m) = [Log l m]"
  by (simp add: log_def emit_def)

lemma fst_call [simp]: "fst (call ev r) = [ev]"
  by (simp add: call_def)

lemma fst_seq:
  "fst (seq m f) = (case snd m of Inl e \<Rightarrow> fst m | Inr v \<Rightarrow> fst m @ fst (f v))"
  by (simp add: seq_def split: prod.splits sum.splits)

lemma fst_try_except:
  "fst (try_except m h) =
     (case snd m of Inl e \<Rightarrow> if is_Exception e then fst m @ fst (h e) else fst m
      | Inr v \<Rightarrow> fst m)"
  by (simp add: try_except_def split: prod.splits sum.splits)

lemmas run_defs =
  seq_def try_except_def ret_def raise_def emit_def log_def call_def frombytes_def
  extract_page_text_def ocr_fallback_def extract_page_text_ocr_def
  extract_page_text_pypdf_def extract_page_text_pdfminer_def missing_deps_def
  is_blank_def strip_def isspace_def Let_def

lemmas demo_defs =
  demo_world_def no_tesseract_world_def renamed_world_def sample_pdf_def letter_page_def

section \<open>The orchestrator's engine dispatch\<close>

text \<open>
  C5. When the requested engine is \<open>'ocr'\<close>, \<open>extract_page_text\<close> is the OCR extractor
  and nothing else: the same events and the same result, so an OCR error reaches the
  caller and no fallback runs. When the engine name is none of \<open>'pypdf'\<close>,
  \<open>'pdfminer'\<close>, \<open>'ocr'\<close>, it raises the invalid-engine \<open>ValueError\<close> and has made
  no library call and written no log record before.
\<close>

theorem engine_dispatch:
  "extract_page_text W p n ''ocr'' = extract_page_text_ocr W p n ''jpn+eng''
   \<and> (engine \<noteq> ''pypdf'' \<and> engine \<noteq> ''pdfminer'' \<and> engine \<noteq> ''ocr''
      \<longrightarrow> extract_page_text W p n engine = ([], Inl (ValueError (InvalidEngine engine))))"
  by (simp add: extract_page_text_def seq_def raise_def)

theorem engine_dispatch_witness:
  "extract_page_text demo_world sample_pdf 2 ''ocr''
     = extract_page_text_ocr demo_world sample_pdf 2 ''jpn+eng''
   \<and> ''tesseract'' \<noteq> ''pypdf'' \<and> ''tesseract'' \<noteq> ''pdfminer'' \<and> ''tesseract'' \<noteq> ''ocr''
   \<and> extract_page_text demo_world sample_pdf 2 ''tesseract''
     = ([], Inl (ValueError (InvalidEngine ''tesseract'')))"
  using engine_dispatch [of demo_world sample_pdf 2 "''tesseract''"] by simp

section \<open>Blank text and what the backends return\<close>

lemma is_blank_iff: "is_blank t \<longleftrightarrow> list_all isspace t"
proof (cases "dropWhile isspace t = []")
  case True
  have "strip t = []"
    unfolding strip_def True by simp
  moreover have "list_all isspace t"
    using True by (simp add: list_all_iff)
  ultimately show ?thesis by (simp add: is_blank_def)
next
  case False
  then have "\<not> isspace (hd (dropWhile isspace t))"
    by (rule hd_dropWhile)
  moreover have "hd (dropWhile isspace t) \<in> set (rev (dropWhile isspace t))"
    using False by simp
  ultimately have "dropWhile isspace (rev (dropWhile isspace t)) \<noteq> []"
    unfolding dropWhile_eq_Nil_conv by blast
  then have "strip t \<noteq> []"
    by (simp add: strip_def)
  moreover have "t \<noteq> []" using False by auto
  moreover have "\<not> list_all isspace t"
    using False by (simp add: list_all_iff)
  ultimately show ?thesis by (simp add: is_blank_def)
qed

lemma pypdf_produced:
  "snd (extract_page_text_pypdf W p n) = Inr t \<Longrightarrow> produced W t"
  unfolding extract_page_text_pypdf_def produced_def
  by (auto simp: snd_seq snd_try_except Let_def split: sum.splits if_splits)

lemma pdfminer_produced:
  "snd (extract_page_text_pdfminer W p n) = Inr t \<Longrightarrow> produced W t"
  unfolding extract_page_text_pdfminer_def produced_def
  by (auto simp: snd_seq snd_try_except Let_def split: sum.splits if_splits)

lemma snd_frombytes:
  "snd (frombytes W pix) =
     (case frombytes_error W pix of Some e \<Rightarrow> Inl e
      | None \<Rightarrow> Inr \<lparr>img_source = FromPixmap pix, img_mode = ''RGB''\<rparr>)"
  by (simp add: frombytes_def)

lemma ocr_produced:
  "snd (extract_page_text_ocr W p n l) = Inr t \<Longrightarrow> produced W t"
  unfolding extract_page_text_ocr_def produced_def
  by (auto simp: snd_seq snd_try_except snd_frombytes Let_def split: sum.splits if_splits option.splits)

lemma fallback_produced:
  "produced W t0 \<Longrightarrow> snd (ocr_fallback W p n t0) = Inr t \<Longrightarrow> produced W t"
  unfolding ocr_fallback_def
  by (auto simp: snd_seq snd_try_except Let_def produced_def dest!: ocr_produced split: sum.splits if_splits)

lemma extract_produced:
  "snd (extract_page_text W p n engine) = Inr t \<Longrightarrow> produced W t"
  unfolding extract_page_text_def
  by (auto simp: snd_seq  dest: ocr_produced pypdf_produced pdfminer_produced fallback_produced split: sum.splits if_splits)

text \<open>The stand-in normaliser has the three properties of NFC that the claims rest on.\<close>

lemma compose_acute_other: "c \<noteq> 101 \<Longrightarrow> compose_acute (c # xs) = c # compose_acute xs"
  by (cases xs) auto

lemma compose_acute_head:
  "d \<noteq> 769 \<Longrightarrow> \<exists>h t'. compose_acute (d # r) = h # t' \<and> h \<noteq> 769"
  by (cases r) auto

lemma compose_acute_idem: "compose_acute (compose_acute t) = compose_acute t"
proof (induction t rule: compose_acute.induct)
  case (1 c d r)
  show ?case
  proof (cases "c = 101 \<and> d = 769")
    case True
    with 1 show ?thesis by (simp add: compose_acute_other)
  next
    case False
    note IH = 1(2) [OF False]
    show ?thesis
    proof (cases "c = 101")
      case True
      with False have d: "d \<noteq> 769" by simp
      then obtain h t' where ht: "compose_acute (d # r) = h # t'" "h \<noteq> 769"
        using compose_acute_head by blast
      have "compose_acute (c # h # t') = c # compose_acute (h # t')"
        using ht(2) by simp
      with IH ht d show ?thesis by simp
    next
      case False
      with IH show ?thesis by (simp add: compose_acute_other)
    qed
  qed
qed simp_all

lemma compose_acute_keeps: "\<not> is_blank t \<Longrightarrow> \<not> is_blank (compose_acute t)"
  unfolding is_blank_iff
  by (induction t rule: compose_acute.induct) (auto simp: isspace_def)

section \<open>Returned text is normalised\<close>

text \<open>
  C3. Whenever one of the three backends, or the orchestrator, returns a text, that text
  is a fixed point of the normalisation: normalising it again gives the same string. The
  empty string included. The normaliser is the library's; what is used of it is that it
  is idempotent and maps the empty string to itself.
\<close>

theorem extracted_text_is_nfc:
  assumes idem: "\<And>t. nfc W (nfc W t) = nfc W t"
    and empty: "nfc W [] = []"
  shows "(snd (extract_page_text_pypdf W p n) = Inr t \<longrightarrow> nfc W t = t)
       \<and> (snd (extract_page_text_pdfminer W p n) = Inr t \<longrightarrow> nfc W t = t)
       \<and> (snd (extract_page_text_ocr W p n lang) = Inr t \<longrightarrow> nfc W t = t)
       \<and> (snd (extract_page_text W p n engine) = Inr t \<longrightarrow> nfc W t = t)"
proof -
  have "nfc W t = t" if "produced W t" for t
    using that idem empty by (auto simp: produced_def)
  then show ?thesis
    using pypdf_produced pdfminer_produced ocr_produced extract_produced by blast
qed

theorem extracted_text_is_nfc_witness:
  "nfc demo_world [] = []
   \<and> snd (extract_page_text demo_world sample_pdf 2 ''pypdf'') = Inr [233, 10]
   \<and> nfc demo_world [233, 10] = [233, 10]"
proof -
  have idem: "\<And>t. nfc demo_world (nfc demo_world t) = nfc demo_world t"
    by (simp add: demo_world_def compose_acute_idem)
  have empty: "nfc demo_world [] = []"
    by (simp add: demo_world_def)
  have run: "snd (extract_page_text demo_world sample_pdf 2 ''pypdf'') = Inr [233, 10]"
    by (simp add: run_defs demo_defs)
  from extracted_text_is_nfc [OF idem empty, of sample_pdf 2 "[233, 10]" _ "''pypdf''"] run
  have "nfc demo_world [233, 10] = [233, 10]" by blast
  with empty run show ?thesis by simp
qed

section \<open>Returned text is empty or has a visible character\<close>

text \<open>
  C10. A text returned by \<open>extract_page_text\<close> is the empty string or holds at least
  one character that is not whitespace, for every engine and after any fallback. The
  normaliser is the library's; what is used of it is that it does not turn a text with a
  non-whitespace character into a whitespace-only one.
\<close>

theorem never_whitespace_only:
  assumes keeps: "\<And>t. \<not> is_blank t \<Longrightarrow> \<not> is_blank (nfc W t)"
    and run: "snd (extract_page_text W p n engine) = Inr t"
  shows "t = [] \<or> \<not> list_all isspace t"
proof -
  from run have "produced W t" by (rule extract_produced)
  with keeps have "t = [] \<or> \<not> is_blank t" by (auto simp: produced_def)
  then show ?thesis by (simp add: is_blank_iff)
qed

theorem never_whitespace_only_witness:
  "snd (extract_page_text demo_world sample_pdf 2 ''pdfminer'') = Inr [233, 10]
   \<and> \<not> list_all isspace [233, 10]
   \<and> snd (extract_page_text no_tesseract_world sample_pdf 2 ''pdfminer'') = Inr []"
proof -
  have keeps: "\<And>t. \<not> is_blank t \<Longrightarrow> \<not> is_blank (nfc demo_world t)"
    by (simp add: demo_world_def compose_acute_keeps)
  have run: "snd (extract_page_text demo_world sample_pdf 2 ''pdfminer'') = Inr [233, 10]"
    by (simp add: run_defs demo_defs)
  have run': "snd (extract_page_text no_tesseract_world sample_pdf 2 ''pdfminer'') = Inr []"
    by (simp add: run_defs demo_defs)
  from never_whitespace_only [OF keeps run]
  have "\<not> list_all isspace [233, 10]" by simp
  with run run' show ?thesis by simp
qed

section \<open>Escalation to OCR when the text layer is empty\<close>

text \<open>
  C1. For the engines \<open>'pypdf'\<close> and \<open>'pdfminer'\<close>: when the first attempt returns an
  empty or whitespace-only text and both OCR dependencies are present, the orchestrator
  runs the OCR extractor (its events follow the first attempt's in the trace). That first
  text is the empty string. If OCR returns a text with a visible character, this text is
  the result; if OCR returns a blank text, or raises an exception, the result is the
  original empty text, and the exception does not reach the caller.
\<close>

theorem fallback_escalation:
  assumes keeps: "\<And>t. \<not> is_blank t \<Longrightarrow> \<not> is_blank (nfc W t)"
    and engine: "engine = ''pypdf'' \<or> engine = ''pdfminer''"
    and first: "(if engine = ''pypdf'' then extract_page_text_pypdf W p n
                 else extract_page_text_pdfminer W p n) = (tr1, Inr t1)"
    and blank: "is_blank t1"
    and deps: "PYMUPDF_AVAILABLE W" "PYTESSERACT_AVAILABLE W"
    and ocr: "extract_page_text_ocr W p n ''jpn+eng'' = (tr2, r2)"
  shows "(\<exists>rest. fst (extract_page_text W p n engine) = tr1 @ Log INFO MsgFallbackTry # tr2 @ rest)
       \<and> t1 = []
       \<and> (\<forall>t2. r2 = Inr t2 \<and> \<not> is_blank t2 \<longrightarrow> snd (extract_page_text W p n engine) = Inr t2)
       \<and> (\<forall>t2. r2 = Inr t2 \<and> is_blank t2 \<longrightarrow> snd (extract_page_text W p n engine) = Inr t1)
       \<and> (\<forall>e. r2 = Inl e \<and> is_Exception e \<longrightarrow> snd (extract_page_text W p n engine) = Inr t1)"
proof -
  let ?first = "if engine = ''pypdf'' then extract_page_text_pypdf W p n
                else extract_page_text_pdfminer W p n"
  have unfold: "extract_page_text W p n engine = seq ?first (ocr_fallback W p n)"
    using engine by (auto simp: extract_page_text_def)
  have tr: "fst (extract_page_text W p n engine) = tr1 @ fst (ocr_fallback W p n t1)"
    and res: "snd (extract_page_text W p n engine) = snd (ocr_fallback W p n t1)"
    unfolding unfold using first by (simp_all add: fst_seq snd_seq)
  have "produced W t1"
    using first engine pypdf_produced [of W p n t1] pdfminer_produced [of W p n t1]
    by (auto split: if_splits)
  then have t1: "t1 = []"
    using keeps blank by (auto simp: produced_def)
  have t2: "t2 = []" if "r2 = Inr t2" "is_blank t2" for t2
  proof -
    have "produced W t2"
      using that(1) ocr ocr_produced [of W p n "''jpn+eng''" t2] by simp
    then show ?thesis
      using keeps that(2) by (auto simp: produced_def)
  qed
  have fb_tr: "\<exists>rest. fst (ocr_fallback W p n t1) = Log INFO MsgFallbackTry # tr2 @ rest"
    using blank deps ocr
    by (auto simp: ocr_fallback_def fst_seq fst_try_except snd_seq split: sum.splits)
  have fb_res: "snd (ocr_fallback W p n t1) =
      (case r2 of Inr t2 \<Rightarrow> Inr t2 | Inl e \<Rightarrow> if is_Exception e then Inr [] else Inl e)"
    using blank deps ocr
    by (auto simp: ocr_fallback_def snd_seq snd_try_except split: sum.splits)
  have c1: "\<exists>rest. fst (extract_page_text W p n engine) = tr1 @ Log INFO MsgFallbackTry # tr2 @ rest"
    using tr fb_tr by auto
  have c3: "\<forall>t2. r2 = Inr t2 \<and> \<not> is_blank t2 \<longrightarrow> snd (extract_page_text W p n engine) = Inr t2"
    using res fb_res by simp
  have c4: "\<forall>t2. r2 = Inr t2 \<and> is_blank t2 \<longrightarrow> snd (extract_page_text W p n engine) = Inr t1"
    using res fb_res t1 t2 by auto
  have c5: "\<forall>e. r2 = Inl e \<and> is_Exception e \<longrightarrow> snd (extract_page_text W p n engine) = Inr t1"
    using res fb_res t1 by simp
  from c1 t1 c3 c4 c5 show ?thesis by blast
qed

text \<open>The stand-in normaliser of the concrete worlds keeps visible characters.\<close>

lemma demo_keeps: "\<not> is_blank t \<Longrightarrow> \<not> is_blank (nfc demo_world t)"
  by (simp add: demo_world_def compose_acute_keeps)

lemma no_tesseract_keeps: "\<not> is_blank t \<Longrightarrow> \<not> is_blank (nfc no_tesseract_world t)"
  by (simp add: demo_defs compose_acute_keeps)

theorem fallback_escalation_witness:
  "snd (extract_page_text_pypdf demo_world sample_pdf 2) = Inr []
   \<and> snd (extract_page_text_ocr demo_world sample_pdf 2 ''jpn+eng'') = Inr [233, 10]
   \<and> snd (extract_page_text demo_world sample_pdf 2 ''pypdf'') = Inr [233, 10]
   \<and> snd (extract_page_text_pdfminer no_tesseract_world sample_pdf 2) = Inr []
   \<and> snd (extract_page_text_ocr no_tesseract_world sample_pdf 2 ''jpn+eng'') = Inl (LibraryError 1)
   \<and> snd (extract_page_text no_tesseract_world sample_pdf 2 ''pdfminer'') = Inr []"
proof -
  obtain tr1 where first: "(if ''pypdf'' = ''pypdf'' then extract_page_text_pypdf demo_world sample_pdf 2
      else extract_page_text_pdfminer demo_world sample_pdf 2) = (tr1, Inr [])"
    by (simp add: run_defs demo_defs)
  obtain tr2 where ocr: "extract_page_text_ocr demo_world sample_pdf 2 ''jpn+eng'' = (tr2, Inr [233, 10])"
    by (simp add: run_defs demo_defs)
  have deps: "PYMUPDF_AVAILABLE demo_world" "PYTESSERACT_AVAILABLE demo_world"
    by (simp_all add: demo_defs)
  have b: "is_blank []" "\<not> is_blank [233, 10]"
    by (simp_all add: is_blank_def strip_def isspace_def)
  from fallback_escalation [OF demo_keeps _ first b(1) deps ocr] b(2)
  have r1: "snd (extract_page_text demo_world sample_pdf 2 ''pypdf'') = Inr [233, 10]"
    by simp
  obtain tr1' where first': "(if ''pdfminer'' = ''pypdf'' then extract_page_text_pypdf no_tesseract_world sample_pdf 2
      else extract_page_text_pdfminer no_tesseract_world sample_pdf 2) = (tr1', Inr [])"
    by (simp add: run_defs demo_defs)
  obtain tr2' where ocr': "extract_page_text_ocr no_tesseract_world sample_pdf 2 ''jpn+eng'' = (tr2', Inl (LibraryError 1))"
    by (simp add: run_defs demo_defs)
  have deps': "PYMUPDF_AVAILABLE no_tesseract_world" "PYTESSERACT_AVAILABLE no_tesseract_world"
    by (simp_all add: demo_defs)
  from fallback_escalation [OF no_tesseract_keeps _ first' b(1) deps' ocr']
  have r2: "snd (extract_page_text no_tesseract_world sample_pdf 2 ''pdfminer'') = Inr []"
    by simp
  from first ocr r1 first' ocr' r2 show ?thesis by simp
qed

section \<open>The OCR extractor and its document handle\<close>

text \<open>
  C4. The claim is that the OCR extractor closes the document it opened on every exit
  path. Evaluated where the OCR call raises (sample.pdf, page 2, no Tesseract binary):
  the document is opened, the exception leaves the function, and \<open>doc.close()\<close> has not
  run. The out-of-range path of the same function (page 7 of 3) does close the document
  before raising.
\<close>

theorem ocr_handle_not_released:
  "extract_page_text_ocr no_tesseract_world sample_pdf 2 ''jpn+eng'' =
     ([CallFitzOpen sample_pdf, DocOpened sample_pdf,
       Log INFO (MsgOcrParsing sample_pdf 2), Log INFO (MsgOcrLang ''jpn+eng''),
       CallGetPixmap 1 (25 / 12) (25 / 12),
       CallFrombytes \<lparr>width = 1275, height = 1650, samples = []\<rparr>,
       CallImageToString ''jpn+eng'',
       Log ERROR (MsgOcrFailed (LibraryError 1))],
      Inl (LibraryError 1))
   \<and> DocClosed sample_pdf \<notin> set (fst (extract_page_text_ocr no_tesseract_world sample_pdf 2 ''jpn+eng''))
   \<and> extract_page_text_ocr no_tesseract_world sample_pdf 7 ''jpn+eng'' =
     ([CallFitzOpen sample_pdf, DocOpened sample_pdf, DocClosed sample_pdf],
      Inl (ValueError (PageOutOfRange 7 3)))"
  by (simp add: run_defs demo_defs)

section \<open>Page numbers out of range\<close>

text \<open>
  The pypdf backend and the OCR backend compare the page number with the page count of
  the document they opened.
\<close>

lemma pypdf_page_check:
  assumes "PdfReader W path = Inr pages"
  shows "p < 1 \<or> p > int (length pages) \<Longrightarrow>
           snd (extract_page_text_pypdf W path p)
             = Inl (ValueError (PageOutOfRange p (int (length pages))))"
    and "1 \<le> p \<Longrightarrow> p \<le> int (length pages) \<Longrightarrow>
           CallExtractText (p - 1) \<in> set (fst (extract_page_text_pypdf W path p))"
  using assms
  by (auto simp: extract_page_text_pypdf_def snd_seq snd_try_except fst_seq fst_try_except Let_def
           split: sum.splits)

lemma ocr_page_check:
  assumes "PYMUPDF_AVAILABLE W" "PYTESSERACT_AVAILABLE W" "fitz_open W path = Inr doc"
  shows "p < 1 \<or> p > int (length doc) \<Longrightarrow>
           snd (extract_page_text_ocr W path p lang)
             = Inl (ValueError (PageOutOfRange p (int (length doc))))"
    and "1 \<le> p \<Longrightarrow> p \<le> int (length doc) \<Longrightarrow>
           CallGetPixmap (p - 1) (150 / 72) (150 / 72)
             \<in> set (fst (extract_page_text_ocr W path p lang))"
  using assms
  by (auto simp: extract_page_text_ocr_def snd_seq snd_try_except fst_seq fst_try_except Let_def
           split: sum.splits)

text \<open>
  C2. The claim is that every backend rejects a page number below 1 or above the page
  count with an error that carries the requested number and the valid range. Evaluated
  on page 7 of the three-page sample.pdf: the pdfminer backend, which only checks
  \<open>page_number < 1\<close>, calls the extraction and returns the empty text, where the pypdf
  and OCR backends raise the out-of-range error carrying 7 and 3; through the
  orchestrator the request ends with an empty text. For page 0 the pdfminer backend
  raises an error that carries the requested number and no range.
\<close>

theorem pdfminer_page_above_count:
  "extract_page_text_pdfminer demo_world sample_pdf 7 =
     ([Log INFO (MsgParsing sample_pdf 7), CallPdfminer sample_pdf 6, Log WARNING (MsgNoText 7)],
      Inr [])
   \<and> snd (extract_page_text_pypdf demo_world sample_pdf 7)
       = Inl (ValueError (PageOutOfRange 7 3))
   \<and> snd (extract_page_text_ocr demo_world sample_pdf 7 ''jpn+eng'')
       = Inl (ValueError (PageOutOfRange 7 3))
   \<and> snd (extract_page_text demo_world sample_pdf 7 ''pdfminer'') = Inr []
   \<and> snd (extract_page_text_pdfminer demo_world sample_pdf 0)
       = Inl (ValueError (PageBelowOne 0))"
  by (simp add: run_defs demo_defs)

section \<open>The assembler and the images it opens\<close>

lemmas image_defs =
  images_to_pdf_def Image_open_def convert_def open_rest.simps close_all.simps
  seq_def try_except_def ret_def raise_def emit_def log_def call_def Let_def

text \<open>
  C9. The claim is that the assembler closes every image it opened on every exit path.
  Evaluated on \<open>[b.png, c.png]\<close> where \<open>c.png\<close> does not exist: \<open>b.png\<close> is
  opened, opening \<open>c.png\<close> raises, the exception leaves the function, and the image of
  \<open>b.png\<close> has not been closed. On the path without an error (\<open>[b.png]\<close> alone) the
  same image is closed.
\<close>

theorem assembler_images_not_closed:
  "images_to_pdf demo_world [Path ''b.png'', Path ''c.png''] (Path ''out.pdf'') =
     ([Log INFO (MsgAssembling 2),
       CallImageOpen (Path ''b.png''),
       ImageOpened \<lparr>img_source = FromFile (Path ''b.png''), img_mode = ''RGB''\<rparr>,
       CallImageOpen (Path ''c.png''),
       Log ERROR (MsgAssembleFailed (FileNotFoundError (Path ''c.png'')))],
      Inl (FileNotFoundError (Path ''c.png'')))
   \<and> ImageClosed \<lparr>img_source = FromFile (Path ''b.png''), img_mode = ''RGB''\<rparr>
       \<notin> set (fst (images_to_pdf demo_world [Path ''b.png'', Path ''c.png''] (Path ''out.pdf'')))
   \<and> ImageClosed \<lparr>img_source = FromFile (Path ''b.png''), img_mode = ''RGB''\<rparr>
       \<in> set (fst (images_to_pdf demo_world [Path ''b.png''] (Path ''out.pdf'')))"
  by (simp add: image_defs demo_defs)

section \<open>Assembling images into a PDF\<close>

lemma pdf_saves_append [simp]: "pdf_saves (xs @ ys) = pdf_saves xs @ pdf_saves ys"
  by (simp add: pdf_saves_def)

lemma pdf_saves_Nil [simp]: "pdf_saves [] = []"
  by (simp add: pdf_saves_def)

lemma pdf_saves_Cons [simp]: "pdf_saves (ev # tr) = pdf_save_of ev @ pdf_saves tr"
  by (simp add: pdf_saves_def)

lemma Image_open_ok:
  "image_open W p = Inr m \<Longrightarrow>
     Image_open W p =
       ([CallImageOpen p, ImageOpened \<lparr>img_source = FromFile p, img_mode = m\<rparr>],
        Inr \<lparr>img_source = FromFile p, img_mode = m\<rparr>)"
  by (simp add: Image_open_def seq_def call_def emit_def ret_def Let_def)

lemma convert_ok:
  "convert_error W img = None \<Longrightarrow>
     convert W img = ([CallConvert img], Inr (img\<lparr>img_mode := ''RGB''\<rparr>))"
  by (simp add: convert_def call_def)

lemma loads_as_rgb_mode:
  "loads_as_rgb W p \<Longrightarrow> image_open W p = Inr m \<Longrightarrow>
     m = ''RGB'' \<or> convert_error W \<lparr>img_source = FromFile p, img_mode = m\<rparr> = None"
  by (simp add: loads_as_rgb_def)

lemma open_rest_ok:
  "list_all (loads_as_rgb W) ps \<Longrightarrow>
     \<exists>tr. open_rest W ps acc = (tr, Inr (acc @ map rgb_of ps)) \<and> pdf_saves tr = []
        \<and> (\<forall>p m. p \<in> set ps \<and> image_open W p = Inr m \<and> m \<noteq> ''RGB''
              \<longrightarrow> CallConvert \<lparr>img_source = FromFile p, img_mode = m\<rparr> \<in> set tr)"
proof (induction ps arbitrary: acc)
  case Nil
  then show ?case by (simp add: ret_def)
next
  case (Cons p ps)
  from Cons.prems have p: "loads_as_rgb W p" and ps: "list_all (loads_as_rgb W) ps"
    by simp_all
  from p obtain m where m: "image_open W p = Inr m"
    by (auto simp: loads_as_rgb_def split: sum.splits)
  from Cons.IH [OF ps, of "acc @ [rgb_of p]"] obtain tr where
    tr: "open_rest W ps (acc @ [rgb_of p]) = (tr, Inr ((acc @ [rgb_of p]) @ map rgb_of ps))"
      "pdf_saves tr = []"
      "\<forall>p m. p \<in> set ps \<and> image_open W p = Inr m \<and> m \<noteq> ''RGB''
              \<longrightarrow> CallConvert \<lparr>img_source = FromFile p, img_mode = m\<rparr> \<in> set tr"
    by blast
  let ?tr = "[CallImageOpen p, ImageOpened \<lparr>img_source = FromFile p, img_mode = m\<rparr>]
      @ (if m \<noteq> ''RGB'' then [CallConvert \<lparr>img_source = FromFile p, img_mode = m\<rparr>] else [])
      @ tr"
  have "open_rest W (p # ps) acc = (?tr, Inr (acc @ map rgb_of (p # ps)))"
  proof (cases "m = ''RGB''")
    case True
    with tr(1) show ?thesis
      by (simp add: Image_open_ok [OF m] seq_def ret_def rgb_of_def)
  next
    case False
    with loads_as_rgb_mode [OF p m]
    have "convert_error W \<lparr>img_source = FromFile p, img_mode = m\<rparr> = None" by simp
    with tr(1) False show ?thesis
      by (simp add: Image_open_ok [OF m] convert_ok seq_def rgb_of_def)
  qed
  moreover have "pdf_saves ?tr = []"
    using tr(2) by simp
  moreover have "\<forall>q n. q \<in> set (p # ps) \<and> image_open W q = Inr n \<and> n \<noteq> ''RGB''
              \<longrightarrow> CallConvert \<lparr>img_source = FromFile q, img_mode = n\<rparr> \<in> set ?tr"
    using tr(3) m by auto
  ultimately show ?case by blast
qed

lemma close_all_ok: "\<exists>tr. close_all imgs = (tr, Inr ()) \<and> pdf_saves tr = []"
proof (induction imgs)
  case Nil
  then show ?case by (simp add: ret_def)
next
  case (Cons img imgs)
  then obtain tr where "close_all imgs = (tr, Inr ())" "pdf_saves tr = []" by blast
  then show ?case by (simp add: seq_def emit_def)
qed

lemma images_to_pdf_empty:
  "images_to_pdf W [] out =
     ([Log ERROR (MsgAssembleFailed (ValueError EmptyImageList))], Inl (ValueError EmptyImageList))"
  by (simp add: images_to_pdf_def try_except_def raise_def seq_def log_def emit_def)

lemma images_to_pdf_ok:
  assumes ne: "image_paths \<noteq> []"
    and loads: "list_all (loads_as_rgb W) image_paths"
    and save: "pdf_save W out (map rgb_of image_paths) = Inr ()"
  shows "\<exists>pre post. images_to_pdf W image_paths out
             = (pre @ CallPdfSave out (map rgb_of image_paths) # post, Inr ())
         \<and> pdf_saves pre = [] \<and> pdf_saves post = []
         \<and> (\<forall>p m. p \<in> set image_paths \<and> image_open W p = Inr m \<and> m \<noteq> ''RGB''
               \<longrightarrow> CallConvert \<lparr>img_source = FromFile p, img_mode = m\<rparr> \<in> set pre)"
proof -
  from ne obtain p ps where ps: "image_paths = p # ps" by (cases image_paths) auto
  from loads ps have p: "loads_as_rgb W p" and rest: "list_all (loads_as_rgb W) ps"
    by simp_all
  from p obtain m where m: "image_open W p = Inr m"
    by (auto simp: loads_as_rgb_def split: sum.splits)
  from open_rest_ok [OF rest, of "[]"] obtain tr where
    tr: "open_rest W ps [] = (tr, Inr (map rgb_of ps))" "pdf_saves tr = []"
      "\<forall>p m. p \<in> set ps \<and> image_open W p = Inr m \<and> m \<noteq> ''RGB''
              \<longrightarrow> CallConvert \<lparr>img_source = FromFile p, img_mode = m\<rparr> \<in> set tr"
    by auto
  from close_all_ok obtain cl where cl: "close_all (map rgb_of ps) = (cl, Inr ())" "pdf_saves cl = []"
    by blast
  let ?conv = "if m \<noteq> ''RGB'' then [CallConvert \<lparr>img_source = FromFile p, img_mode = m\<rparr>] else []"
  let ?pre = "Log INFO (MsgAssembling (length image_paths))
      # [CallImageOpen p, ImageOpened \<lparr>img_source = FromFile p, img_mode = m\<rparr>] @ tr @ ?conv"
  let ?post = "ImageClosed (rgb_of p) # cl @ [Log INFO (MsgPdfCreated out)]"
  have "images_to_pdf W image_paths out
          = (?pre @ CallPdfSave out (map rgb_of image_paths) # ?post, Inr ())"
  proof (cases "m = ''RGB''")
    case True
    with save tr(1) cl(1) show ?thesis
      unfolding images_to_pdf_def ps
      by (simp add: Image_open_ok [OF m] seq_def try_except_def log_def emit_def call_def
            ret_def rgb_of_def)
  next
    case False
    with loads_as_rgb_mode [OF p m]
    have "convert_error W \<lparr>img_source = FromFile p, img_mode = m\<rparr> = None" by simp
    with save tr(1) cl(1) False show ?thesis
      unfolding images_to_pdf_def ps
      by (simp add: Image_open_ok [OF m] convert_ok seq_def try_except_def log_def emit_def
            call_def rgb_of_def)
  qed
  moreover have "pdf_saves ?pre = []" "pdf_saves ?post = []"
    using tr(2) cl(2) by simp_all
  moreover have "\<forall>q n. q \<in> set image_paths \<and> image_open W q = Inr n \<and> n \<noteq> ''RGB''
               \<longrightarrow> CallConvert \<lparr>img_source = FromFile q, img_mode = n\<rparr> \<in> set ?pre"
    using tr(3) m ps by auto
  ultimately show ?thesis by blast
qed

text \<open>
  C6. Assembling the empty list raises the empty-input \<open>ValueError\<close> and writes nothing
  (the only event is the error log record). Assembling a non-empty list whose files open
  and convert, and whose save succeeds, returns normally and writes one PDF: its pages
  are the images of the input files in the input order, each in RGB mode, and every
  image that was not RGB when opened has been converted before the save.
\<close>

theorem assemble_images:
  "images_to_pdf W [] out =
     ([Log ERROR (MsgAssembleFailed (ValueError EmptyImageList))], Inl (ValueError EmptyImageList))
   \<and> (image_paths \<noteq> [] \<and> list_all (loads_as_rgb W) image_paths
        \<and> pdf_save W out (map rgb_of image_paths) = Inr ()
      \<longrightarrow> snd (images_to_pdf W image_paths out) = Inr ()
        \<and> pdf_saves (fst (images_to_pdf W image_paths out)) = [(out, map rgb_of image_paths)]
        \<and> map img_source (map rgb_of image_paths) = map FromFile image_paths
        \<and> list_all (\<lambda>img. img_mode img = ''RGB'') (map rgb_of image_paths)
        \<and> (\<exists>pre post. fst (images_to_pdf W image_paths out)
               = pre @ CallPdfSave out (map rgb_of image_paths) # post
             \<and> (\<forall>p m. p \<in> set image_paths \<and> image_open W p = Inr m \<and> m \<noteq> ''RGB''
                  \<longrightarrow> CallConvert \<lparr>img_source = FromFile p, img_mode = m\<rparr> \<in> set pre)))"
proof -
  have src: "map img_source (map rgb_of image_paths) = map FromFile image_paths"
    by (simp add: rgb_of_def)
  have mode: "list_all (\<lambda>img. img_mode img = ''RGB'') (map rgb_of image_paths)"
    by (simp add: list_all_iff rgb_of_def)
  {
    assume ok: "image_paths \<noteq> []" "list_all (loads_as_rgb W) image_paths"
      "pdf_save W out (map rgb_of image_paths) = Inr ()"
    from images_to_pdf_ok [OF ok] obtain pre post where
      run: "images_to_pdf W image_paths out
             = (pre @ CallPdfSave out (map rgb_of image_paths) # post, Inr ())"
      and saves: "pdf_saves pre = []" "pdf_saves post = []"
      and conv: "\<forall>p m. p \<in> set image_paths \<and> image_open W p = Inr m \<and> m \<noteq> ''RGB''
               \<longrightarrow> CallConvert \<lparr>img_source = FromFile p, img_mode = m\<rparr> \<in> set pre"
      by blast
    have "snd (images_to_pdf W image_paths out) = Inr ()"
      by (simp add: run)
    moreover have "pdf_saves (fst (images_to_pdf W image_paths out))
        = [(out, map rgb_of image_paths)]"
      by (simp add: run saves)
    moreover have "\<exists>pre post. fst (images_to_pdf W image_paths out)
               = pre @ CallPdfSave out (map rgb_of image_paths) # post
             \<and> (\<forall>p m. p \<in> set image_paths \<and> image_open W p = Inr m \<and> m \<noteq> ''RGB''
                  \<longrightarrow> CallConvert \<lparr>img_source = FromFile p, img_mode = m\<rparr> \<in> set pre)"
      using run conv by auto
    ultimately have "snd (images_to_pdf W image_paths out) = Inr ()
        \<and> pdf_saves (fst (images_to_pdf W image_paths out)) = [(out, map rgb_of image_paths)]
        \<and> (\<exists>pre post. fst (images_to_pdf W image_paths out)
               = pre @ CallPdfSave out (map rgb_of image_paths) # post
             \<and> (\<forall>p m. p \<in> set image_paths \<and> image_open W p = Inr m \<and> m \<noteq> ''RGB''
                  \<longrightarrow> CallConvert \<lparr>img_source = FromFile p, img_mode = m\<rparr> \<in> set pre))"
      by blast
  }
  with src mode images_to_pdf_empty [of W out] show ?thesis by blast
qed

theorem assemble_images_witness:
  "images_to_pdf demo_world [] (Path ''out.pdf'') =
     ([Log ERROR (MsgAssembleFailed (ValueError EmptyImageList))], Inl (ValueError EmptyImageList))
   \<and> loads_as_rgb demo_world (Path ''a.png'') \<and> loads_as_rgb demo_world (Path ''b.png'')
   \<and> image_open demo_world (Path ''a.png'') = Inr ''P''
   \<and> snd (images_to_pdf demo_world [Path ''a.png'', Path ''b.png''] (Path ''out.pdf'')) = Inr ()
   \<and> pdf_saves (fst (images_to_pdf demo_world [Path ''a.png'', Path ''b.png''] (Path ''out.pdf'')))
       = [(Path ''out.pdf'', [rgb_of (Path ''a.png''), rgb_of (Path ''b.png'')])]"
proof -
  have loads: "loads_as_rgb demo_world (Path ''a.png'')" "loads_as_rgb demo_world (Path ''b.png'')"
    by (simp_all add: loads_as_rgb_def demo_world_def)
  have mode: "image_open demo_world (Path ''a.png'') = Inr ''P''"
    by (simp add: demo_world_def)
  have save: "pdf_save demo_world (Path ''out.pdf'') (map rgb_of [Path ''a.png'', Path ''b.png'']) = Inr ()"
    by (simp add: demo_world_def)
  from assemble_images [of demo_world "Path ''out.pdf''" "[Path ''a.png'', Path ''b.png'']"]
    loads save
  have "images_to_pdf demo_world [] (Path ''out.pdf'') =
     ([Log ERROR (MsgAssembleFailed (ValueError EmptyImageList))], Inl (ValueError EmptyImageList))"
    "snd (images_to_pdf demo_world [Path ''a.png'', Path ''b.png''] (Path ''out.pdf'')) = Inr ()"
    "pdf_saves (fst (images_to_pdf demo_world [Path ''a.png'', Path ''b.png''] (Path ''out.pdf'')))
       = [(Path ''out.pdf'', [rgb_of (Path ''a.png''), rgb_of (Path ''b.png'')])]"
    by simp_all
  with loads mode show ?thesis by simp
qed

section \<open>Rendering the pages of a range\<close>

lemma renders_simps [simp]:
  "renders [] = []"
  "renders (ev # tr) = render_of ev @ renders tr"
  "renders (xs @ ys) = renders xs @ renders ys"
  by (simp_all add: renders_def)

lemma saved_sizes_simps [simp]:
  "saved_sizes [] = []"
  "saved_sizes (ev # tr) = saved_size_of ev @ saved_sizes tr"
  "saved_sizes (xs @ ys) = saved_sizes xs @ saved_sizes ys"
  by (simp_all add: saved_sizes_def)

text \<open>Saving one rendered page: the events it leaves.\<close>

lemma save_branch:
  assumes "(if lower fmt = ''png'' then call (CallPixSave pix path) (pix_save W pix path)
            else if lower fmt \<in> set [''jpg'', ''jpeg''] then
              seq (frombytes W pix) (\<lambda>img. call (CallJpegSave img path) (jpeg_save W img path))
            else ret ()) = (tr, r)"
  shows "renders tr = []"
    and "r = Inr () \<Longrightarrow> lower fmt \<in> set [''png'', ''jpg'', ''jpeg''] \<Longrightarrow>
           saved_sizes tr = [(width pix, height pix)]"
  using assms
  by (auto simp: call_def seq_def frombytes_def ret_def split: if_splits option.splits sum.splits)

text \<open>
  One round of the loop. The scale factor is computed first: when the DPI is too large
  for a float the round ends there, before any rendering call.
\<close>

lemma convert_pages_overflow:
  "\<not> float_range dpi \<Longrightarrow>
     convert_pages W doc pdf out fmt dpi (n # rest) acc = ([], Inl OverflowError)"
  by (simp add: true_div_def compute_def seq_def)

lemma convert_pages_step:
  "float_range dpi \<Longrightarrow>
   convert_pages W doc pdf out fmt dpi (n # rest) acc =
     seq (call (CallGetPixmap n (of_int dpi / 72) (of_int dpi / 72))
            ((doc ! nat n) (of_int dpi / 72) (of_int dpi / 72))) (\<lambda>pix.
     seq (if lower fmt = ''png'' then
            call (CallPixSave pix (page_file W pdf out fmt n)) (pix_save W pix (page_file W pdf out fmt n))
          else if lower fmt \<in> set [''jpg'', ''jpeg''] then
            seq (frombytes W pix) (\<lambda>img.
            call (CallJpegSave img (page_file W pdf out fmt n))
              (jpeg_save W img (page_file W pdf out fmt n)))
          else ret ()) (\<lambda>_.
     seq (log INFO (MsgPageSaved (n + 1) (page_file W pdf out fmt n))) (\<lambda>_.
     convert_pages W doc pdf out fmt dpi rest (acc @ [page_file W pdf out fmt n]))))"
proof -
  assume "float_range dpi"
  then have z: "compute (true_div dpi 72) = ([], Inr (of_int dpi / 72))"
    by (simp add: true_div_def compute_def)
  have s: "seq ([], Inr v) f = f v" for v :: rat and f :: "rat \<Rightarrow> path list outcome"
    by (simp add: seq_def split: prod.splits)
  show ?thesis
    unfolding convert_pages.simps Let_def page_file_def z s by (rule refl)
qed

lemma seq_Inr_elim:
  assumes "seq m f = (tr, Inr y)"
  obtains tr1 v tr2 where "m = (tr1, Inr v)" "f v = (tr2, Inr y)" "tr = tr1 @ tr2"
  using assms by (auto simp: seq_def split: prod.splits sum.splits)

text \<open>One successful round of the loop: render, save, log, go on.\<close>

lemma convert_pages_round:
  assumes run: "convert_pages W doc pdf out fmt dpi (n # rest) acc = (tr, Inr paths)"
  shows "\<exists>pix tr3 tr5.
           tr = CallGetPixmap n (of_int dpi / 72) (of_int dpi / 72) # tr3
                  @ Log INFO (MsgPageSaved (n + 1) (page_file W pdf out fmt n)) # tr5
         \<and> (doc ! nat n) (of_int dpi / 72) (of_int dpi / 72) = Inr pix
         \<and> renders tr3 = []
         \<and> (lower fmt \<in> set [''png'', ''jpg'', ''jpeg''] \<longrightarrow>
               saved_sizes tr3 = [(width pix, height pix)])
         \<and> convert_pages W doc pdf out fmt dpi rest (acc @ [page_file W pdf out fmt n])
               = (tr5, Inr paths)"
proof -
  let ?z = "of_int dpi / 72 :: rat"
  let ?f = "page_file W pdf out fmt n"
  have fr: "float_range dpi"
    using run convert_pages_overflow [of dpi W doc pdf out fmt n rest acc] by auto
  from run [unfolded convert_pages_step [OF fr]] obtain tr1 pix tr2 where
    pix: "call (CallGetPixmap n ?z ?z) ((doc ! nat n) ?z ?z) = (tr1, Inr pix)"
    and rest1: "seq (if lower fmt = ''png'' then call (CallPixSave pix ?f) (pix_save W pix ?f)
        else if lower fmt \<in> set [''jpg'', ''jpeg''] then
          seq (frombytes W pix) (\<lambda>img. call (CallJpegSave img ?f) (jpeg_save W img ?f))
        else ret ()) (\<lambda>_.
      seq (log INFO (MsgPageSaved (n + 1) ?f)) (\<lambda>_.
      convert_pages W doc pdf out fmt dpi rest (acc @ [?f]))) = (tr2, Inr paths)"
    and tr: "tr = tr1 @ tr2"
    by (rule seq_Inr_elim)
  from rest1 obtain tr3 u tr4 where
    save: "(if lower fmt = ''png'' then call (CallPixSave pix ?f) (pix_save W pix ?f)
        else if lower fmt \<in> set [''jpg'', ''jpeg''] then
          seq (frombytes W pix) (\<lambda>img. call (CallJpegSave img ?f) (jpeg_save W img ?f))
        else ret ()) = (tr3, Inr u)"
    and rest2: "seq (log INFO (MsgPageSaved (n + 1) ?f)) (\<lambda>_.
      convert_pages W doc pdf out fmt dpi rest (acc @ [?f])) = (tr4, Inr paths)"
    and tr2: "tr2 = tr3 @ tr4"
    by (rule seq_Inr_elim)
  from rest2 obtain tr5 where
    rec: "convert_pages W doc pdf out fmt dpi rest (acc @ [?f]) = (tr5, Inr paths)"
    and tr4: "tr4 = Log INFO (MsgPageSaved (n + 1) ?f) # tr5"
    by (auto simp: seq_def log_def emit_def split: prod.splits sum.splits)
  from pix have tr1: "tr1 = [CallGetPixmap n ?z ?z]" and page: "(doc ! nat n) ?z ?z = Inr pix"
    by (simp_all add: call_def)
  have shape: "tr = CallGetPixmap n ?z ?z # tr3 @ Log INFO (MsgPageSaved (n + 1) ?f) # tr5"
    by (simp add: tr tr1 tr2 tr4)
  have "renders tr3 = []"
    using save by (rule save_branch(1))
  moreover have "lower fmt \<in> set [''png'', ''jpg'', ''jpeg''] \<longrightarrow>
      saved_sizes tr3 = [(width pix, height pix)]"
    using save_branch(2) [OF save] by simp
  ultimately show ?thesis
    using shape page rec by blast
qed

lemma convert_pages_success:
  assumes "convert_pages W doc pdf out fmt dpi ps acc = (tr, Inr paths)"
  shows "renders tr = map (\<lambda>n. (n, of_int dpi / 72, of_int dpi / 72)) ps
       \<and> paths = acc @ map (page_file W pdf out fmt) ps
       \<and> (lower fmt \<in> set [''png'', ''jpg'', ''jpeg''] \<longrightarrow>
           saved_sizes tr = concat (map (\<lambda>n. page_size (doc ! nat n) (of_int dpi / 72)) ps))"
  using assms
proof (induction ps arbitrary: acc tr)
  case Nil
  then show ?case by (simp add: ret_def)
next
  case (Cons n rest)
  from convert_pages_round [OF Cons.prems] obtain pix tr3 tr5 where
    shape: "tr = CallGetPixmap n (of_int dpi / 72) (of_int dpi / 72) # tr3
                  @ Log INFO (MsgPageSaved (n + 1) (page_file W pdf out fmt n)) # tr5"
    and page: "(doc ! nat n) (of_int dpi / 72) (of_int dpi / 72) = Inr pix"
    and r3: "renders tr3 = []"
    and s3: "lower fmt \<in> set [''png'', ''jpg'', ''jpeg''] \<longrightarrow>
               saved_sizes tr3 = [(width pix, height pix)]"
    and rec: "convert_pages W doc pdf out fmt dpi rest (acc @ [page_file W pdf out fmt n])
               = (tr5, Inr paths)"
    by blast
  note IH = Cons.IH [OF rec]
  have "renders tr = map (\<lambda>n. (n, of_int dpi / 72, of_int dpi / 72)) (n # rest)"
    using IH r3 by (simp add: shape)
  moreover have "paths = acc @ map (page_file W pdf out fmt) (n # rest)"
    using IH by simp
  moreover have "saved_sizes tr
      = concat (map (\<lambda>n. page_size (doc ! nat n) (of_int dpi / 72)) (n # rest))"
    if "lower fmt \<in> set [''png'', ''jpg'', ''jpeg'']"
    using IH s3 that page by (auto simp: shape page_size_def)
  ultimately show ?case by blast
qed

lemma convert_pages_count:
  assumes "convert_pages W doc pdf out fmt dpi ps acc = (tr, Inr paths)"
    and "lower fmt \<in> set [''png'', ''jpg'', ''jpeg'']"
  shows "length (saved_sizes tr) = length ps"
  using assms(1)
proof (induction ps arbitrary: acc tr)
  case Nil
  then show ?case by (simp add: ret_def)
next
  case (Cons n rest)
  from convert_pages_round [OF Cons.prems] obtain pix tr3 tr5 where
    shape: "tr = CallGetPixmap n (of_int dpi / 72) (of_int dpi / 72) # tr3
                  @ Log INFO (MsgPageSaved (n + 1) (page_file W pdf out fmt n)) # tr5"
    and page: "(doc ! nat n) (of_int dpi / 72) (of_int dpi / 72) = Inr pix"
    and r3: "renders tr3 = []"
    and s3: "lower fmt \<in> set [''png'', ''jpg'', ''jpeg''] \<longrightarrow>
               saved_sizes tr3 = [(width pix, height pix)]"
    and rec: "convert_pages W doc pdf out fmt dpi rest (acc @ [page_file W pdf out fmt n])
               = (tr5, Inr paths)"
    by blast
  from s3 assms(2) have "saved_sizes tr3 = [(width pix, height pix)]" by (rule mp)
  with Cons.IH [OF rec] show ?case by (simp add: shape)
qed


text \<open>The page numbers of the loop, counted from 1, are the ones the request asks for.\<close>

lemma map_Suc_upto: "map (\<lambda>n. n + 1) [a..b] = [a + 1..b + 1]"
proof (induction a b rule: upto.induct)
  case (1 i j)
  show ?case
  proof (cases "i \<le> j")
    case True
    then have "[i..j] = i # [i + 1..j]" "[i + 1..j + 1] = (i + 1) # [i + 1 + 1..j + 1]"
      by (simp_all add: upto.simps)
    with 1 True show ?thesis by simp
  next
    case False
    then show ?thesis by simp
  qed
qed

lemma page_span_spec:
  "map (\<lambda>n. n + 1) [fst (page_span npages page_range)..snd (page_span npages page_range) - 1]
     = spec_page_numbers npages page_range"
  by (auto simp: map_Suc_upto page_span_def spec_page_numbers_def max_def split: option.splits)

text \<open>A successful run of \<open>convert_pdf_to_images\<close> is the loop between fixed events.\<close>

lemma convert_pdf_to_images_success:
  assumes op: "fitz_open W pdf = Inr doc"
    and run: "convert_pdf_to_images W pdf out fmt dpi page_range = (tr, Inr paths)"
  shows "\<exists>trp. convert_pages W doc pdf out fmt dpi
           [fst (page_span (int (length doc)) page_range)
              .. snd (page_span (int (length doc)) page_range) - 1] [] = (trp, Inr paths)
         \<and> renders tr = renders trp \<and> saved_sizes tr = saved_sizes trp"
proof -
  let ?cp = "convert_pages W doc pdf out fmt dpi
           [fst (page_span (int (length doc)) page_range)
              .. snd (page_span (int (length doc)) page_range) - 1] []"
  from run have s: "snd (convert_pdf_to_images W pdf out fmt dpi page_range) = Inr paths"
    and f: "fst (convert_pdf_to_images W pdf out fmt dpi page_range) = tr"
    by simp_all
  from s op have cp: "snd ?cp = Inr paths" and mk: "mkdir W out = Inr ()"
    by (auto simp: convert_pdf_to_images_def snd_seq snd_try_except Let_def
          split: sum.splits if_splits)
  from f op cp mk have "tr = [CallMkdir out, CallFitzOpen pdf, DocOpened pdf,
       Log INFO (MsgTotalPages (int (length doc))),
       Log INFO (MsgRange (fst (page_span (int (length doc)) page_range) + 1)
                    (snd (page_span (int (length doc)) page_range)))]
     @ fst ?cp @ [DocClosed pdf, Log INFO (MsgConverted (length paths))]"
    by (auto simp: convert_pdf_to_images_def fst_seq snd_seq fst_try_except snd_try_except Let_def
          split: sum.splits if_splits)
  then have "renders tr = renders (fst ?cp)" "saved_sizes tr = saved_sizes (fst ?cp)"
    by simp_all
  with cp show ?thesis
    by (metis prod.collapse)
qed

text \<open>What a successful run has rendered and saved, by the page numbers asked for.\<close>

lemma convert_pdf_to_images_pages:
  assumes op: "fitz_open W pdf = Inr doc"
    and run: "convert_pdf_to_images W pdf out fmt dpi page_range = (tr, Inr paths)"
    and pages: "pages = spec_page_numbers (int (length doc)) page_range"
  shows "map (\<lambda>(n, a, d). n + 1) (renders tr) = pages"
    and "list_all (\<lambda>(n, a, d). a = of_int dpi / 72 \<and> d = of_int dpi / 72) (renders tr)"
    and "paths = map (\<lambda>p. Join out (stem W pdf @ ''-page'' @ str_int p @ ''.'' @ fmt)) pages"
    and "lower fmt \<in> set [''png'', ''jpg'', ''jpeg''] \<Longrightarrow>
           saved_sizes tr
             = concat (map (\<lambda>p. page_size (doc ! nat (p - 1)) (of_int dpi / 72)) pages)"
    and "lower fmt \<in> set [''png'', ''jpg'', ''jpeg''] \<Longrightarrow>
           length (saved_sizes tr) = length pages"
proof -
  let ?ps = "[fst (page_span (int (length doc)) page_range)
              .. snd (page_span (int (length doc)) page_range) - 1]"
  from convert_pdf_to_images_success [OF op run] obtain trp where
    cp: "convert_pages W doc pdf out fmt dpi ?ps [] = (trp, Inr paths)"
    and t: "renders tr = renders trp" "saved_sizes tr = saved_sizes trp"
    by blast
  note s = convert_pages_success [OF cp]
  have ps: "pages = map (\<lambda>n. n + 1) ?ps"
    by (simp add: pages page_span_spec)
  from s have r: "renders tr = map (\<lambda>n. (n, of_int dpi / 72, of_int dpi / 72)) ?ps"
    by (simp add: t)
  show "map (\<lambda>(n, a, d). n + 1) (renders tr) = pages"
    unfolding r ps by (simp add: comp_def)
  show "list_all (\<lambda>(n, a, d). a = of_int dpi / 72 \<and> d = of_int dpi / 72) (renders tr)"
    unfolding r by (simp add: list_all_iff)
  from s have "paths = map (page_file W pdf out fmt) ?ps" by simp
  then show "paths = map (\<lambda>p. Join out (stem W pdf @ ''-page'' @ str_int p @ ''.'' @ fmt)) pages"
    unfolding ps by (simp add: comp_def page_file_def)
  {
    assume fmt: "lower fmt \<in> set [''png'', ''jpg'', ''jpeg'']"
    with s have "saved_sizes tr
        = concat (map (\<lambda>n. page_size (doc ! nat n) (of_int dpi / 72)) ?ps)"
      using t by auto
    then show "saved_sizes tr
        = concat (map (\<lambda>p. page_size (doc ! nat (p - 1)) (of_int dpi / 72)) pages)"
      unfolding ps by (simp add: comp_def)
    from convert_pages_count [OF cp fmt] show "length (saved_sizes tr) = length pages"
      unfolding ps by (simp add: t)
  }
qed


lemma convert_pdf_to_images_overflow:
  assumes mk: "mkdir W out = Inr ()" and op: "fitz_open W pdf = Inr doc"
    and fr: "\<not> float_range dpi"
    and ne: "spec_page_numbers (int (length doc)) page_range \<noteq> []"
  shows "snd (convert_pdf_to_images W pdf out fmt dpi page_range) = Inl OverflowError"
    and "renders (fst (convert_pdf_to_images W pdf out fmt dpi page_range)) = []"
proof -
  let ?ps = "[fst (page_span (int (length doc)) page_range)
              .. snd (page_span (int (length doc)) page_range) - 1]"
  have "map (\<lambda>n. n + 1) ?ps \<noteq> []"
    unfolding page_span_spec by (rule ne)
  then obtain n rest where ps: "?ps = n # rest"
    by (cases ?ps) auto
  have cp: "convert_pages W doc pdf out fmt dpi ?ps [] = ([], Inl OverflowError)"
    unfolding ps using fr by (rule convert_pages_overflow)
  show "snd (convert_pdf_to_images W pdf out fmt dpi page_range) = Inl OverflowError"
    using mk op cp
    by (simp add: convert_pdf_to_images_def snd_seq snd_try_except Let_def)
  show "renders (fst (convert_pdf_to_images W pdf out fmt dpi page_range)) = []"
    using mk op cp
    by (simp add: convert_pdf_to_images_def fst_seq snd_seq fst_try_except snd_try_except Let_def)
qed

lemmas raster_defs =
  convert_pdf_to_images_def page_span_def convert_pages.simps
  seq_def try_except_def ret_def raise_def emit_def log_def call_def compute_def frombytes_def
  true_div_def float_range_def Let_def
  lower_def lower_char_def str_int_def decimal.simps upto.simps

text \<open>
  C7. Take two runs of \<open>convert_pdf_to_images\<close> on the same document, page range and
  DPI (the worlds, output directories and file names may differ), both returning
  normally, with an image format that is saved. Then the saved images have the same
  widths and heights in both runs; these are the sizes the requested pages render to at
  the scale factor \<open>dpi / 72\<close> on both axes; there is one image per requested page; the
  rendering calls, each with that scale factor on both axes, and the returned files
  follow the requested page numbers in ascending order: the whole document when no range
  is given, else the range clamped to the document. The renderer is the library's: a
  page answers a rendering call as a function of the two scale factors.
\<close>

theorem rasterize_pages:
  assumes open1: "fitz_open W1 pdf = Inr doc" and open2: "fitz_open W2 pdf = Inr doc"
    and run1: "convert_pdf_to_images W1 pdf out1 fmt dpi page_range = (tr1, Inr paths1)"
    and run2: "convert_pdf_to_images W2 pdf out2 fmt dpi page_range = (tr2, Inr paths2)"
    and fmt: "lower fmt \<in> set [''png'', ''jpg'', ''jpeg'']"
  shows "saved_sizes tr1 = saved_sizes tr2
       \<and> saved_sizes tr1
           = concat (map (\<lambda>p. page_size (doc ! nat (p - 1)) (of_int dpi / 72))
               (spec_page_numbers (int (length doc)) page_range))
       \<and> length (saved_sizes tr1) = length (spec_page_numbers (int (length doc)) page_range)
       \<and> map (\<lambda>(n, a, d). n + 1) (renders tr1)
           = spec_page_numbers (int (length doc)) page_range
       \<and> list_all (\<lambda>(n, a, d). a = of_int dpi / 72 \<and> d = of_int dpi / 72) (renders tr1)
       \<and> paths1 = map (\<lambda>p. Join out1 (stem W1 pdf @ ''-page'' @ str_int p @ ''.'' @ fmt))
                   (spec_page_numbers (int (length doc)) page_range)"
proof -
  note p1 = convert_pdf_to_images_pages [OF open1 run1 refl]
  note p2 = convert_pdf_to_images_pages [OF open2 run2 refl]
  have "saved_sizes tr1 = saved_sizes tr2"
    using p1(4) [OF fmt] p2(4) [OF fmt] by simp
  with p1(1,2,3) p1(4,5) [OF fmt] show ?thesis by simp
qed

theorem rasterize_pages_witness:
  "fitz_open demo_world sample_pdf = Inr [letter_page, letter_page, letter_page]
   \<and> fitz_open renamed_world sample_pdf = Inr [letter_page, letter_page, letter_page]
   \<and> spec_page_numbers 3 None = [1, 2, 3]
   \<and> snd (convert_pdf_to_images demo_world sample_pdf (Path ''out'') ''png'' 150 None)
       = Inr [Join (Path ''out'') ''sample-page1.png'', Join (Path ''out'') ''sample-page2.png'',
              Join (Path ''out'') ''sample-page3.png'']
   \<and> snd (convert_pdf_to_images renamed_world sample_pdf (Path ''again'') ''png'' 150 None)
       = Inr [Join (Path ''again'') ''copy-page1.png'', Join (Path ''again'') ''copy-page2.png'',
              Join (Path ''again'') ''copy-page3.png'']
   \<and> saved_sizes (fst (convert_pdf_to_images demo_world sample_pdf (Path ''out'') ''png'' 150
         None)) = [(1275, 1650), (1275, 1650), (1275, 1650)]
   \<and> saved_sizes (fst (convert_pdf_to_images renamed_world sample_pdf (Path ''again'') ''png'' 150
         None)) = [(1275, 1650), (1275, 1650), (1275, 1650)]
   \<and> map (\<lambda>(n, a, d). n + 1) (renders (fst (convert_pdf_to_images demo_world sample_pdf
         (Path ''out'') ''png'' 150 None))) = [1, 2, 3]"
proof -
  let ?doc = "[letter_page, letter_page, letter_page]"
  have open1: "fitz_open demo_world sample_pdf = Inr ?doc"
    and open2: "fitz_open renamed_world sample_pdf = Inr ?doc"
    by (simp_all add: demo_defs)
  obtain tr1 where run1: "convert_pdf_to_images demo_world sample_pdf (Path ''out'') ''png'' 150
      None = (tr1, Inr [Join (Path ''out'') ''sample-page1.png'',
                        Join (Path ''out'') ''sample-page2.png'',
                        Join (Path ''out'') ''sample-page3.png''])"
    by (simp add: raster_defs demo_defs)
  obtain tr2 where run2: "convert_pdf_to_images renamed_world sample_pdf (Path ''again'') ''png'' 150
      None = (tr2, Inr [Join (Path ''again'') ''copy-page1.png'',
                        Join (Path ''again'') ''copy-page2.png'',
                        Join (Path ''again'') ''copy-page3.png''])"
    by (simp add: raster_defs demo_defs)
  have fmt: "lower ''png'' \<in> set [''png'', ''jpg'', ''jpeg'']"
    by (simp add: lower_def lower_char_def)
  have pages: "spec_page_numbers 3 None = [1, 2, 3]"
    by (simp add: spec_page_numbers_def upto.simps)
  note r = rasterize_pages [OF open1 open2 run1 run2 fmt]
  from r have same: "saved_sizes tr1 = saved_sizes tr2" by (rule conjunct1)
  from r have "saved_sizes tr1
      = concat (map (\<lambda>p. page_size (?doc ! nat (p - 1)) (of_int 150 / 72))
          (spec_page_numbers (int (length ?doc)) None))"
    by blast
  then have s1: "saved_sizes tr1 = [(1275, 1650), (1275, 1650), (1275, 1650)]"
    by (simp add: pages page_size_def letter_page_def)
  with same have s2: "saved_sizes tr2 = [(1275, 1650), (1275, 1650), (1275, 1650)]"
    by simp
  from r have "map (\<lambda>(n, a, d). n + 1) (renders tr1) = spec_page_numbers (int (length ?doc)) None"
    by blast
  then have r1: "map (\<lambda>(n, a, d). n + 1) (renders tr1) = [1, 2, 3]"
    by (simp add: pages)
  from open1 open2 pages run1 run2 s1 s2 r1 show ?thesis by simp
qed

section \<open>The DPI window of the rasterization command\<close>

lemma dpi_warnings_simps [simp]:
  "dpi_warnings [] = []"
  "dpi_warnings (ev # tr) = dpi_warning_of ev @ dpi_warnings tr"
  "dpi_warnings (xs @ ys) = dpi_warnings xs @ dpi_warnings ys"
  by (simp_all add: dpi_warnings_def)

lemma silent_simps [simp]:
  "silent []"
  "silent (ev # tr) \<longleftrightarrow> render_of ev = [] \<and> dpi_warning_of ev = [] \<and> silent tr"
  "silent (xs @ ys) \<longleftrightarrow> silent xs \<and> silent ys"
  by (auto simp: silent_def)

lemma zoomed_simps [simp]:
  "zoomed z []"
  "zoomed z (xs @ ys) \<longleftrightarrow> zoomed z xs \<and> zoomed z ys"
  by (auto simp: zoomed_def)


lemma zoomed_render: "zoomed z (CallGetPixmap n z z # tr) \<longleftrightarrow> zoomed z tr"
  by (simp add: zoomed_def)
























end
